theory Spec2Isabelle
  imports Complex_Main "HOL-Library.Word"
begin

section \<open>Errors and outcomes\<close>

text \<open>
  The error values of the two packages (created with \<^verbatim>\<open>errors.New\<close>), and the errors
  that the collaborators (container runtime, network, hypervisor, lab factory) hand
  back, which the code passes on untouched.
\<close>

datatype error =
    AvailableSizeErr
  | MaximumLabsErr
  | CouldNotFindLabErr
  | DuplicateTagErr
  | MissingTagsErr
  | UnknownTagErr
  | ExternalErr string

text \<open>
  How a call ends: it returns its \<^verbatim>\<open>error\<close> result (\<open>None\<close> is Go's \<^verbatim>\<open>nil\<close>),
  it panics (an index out of range, a send on a closed channel), or it blocks for ever
  on a channel operation.
\<close>

datatype outcome = Returns "error option" | Panics | Blocks

section \<open>The exercise package\<close>

subsection \<open>Blueprint\<close>

record RecordConfig =
  Record_Name :: string
  Record_Type :: string
  Record_RData :: string

record FlagConfig =
  Flag_Name :: string
  Flag_EnvVar :: string
  Flag_Default :: string
  Flag_Points :: nat

record EnvVarConfig =
  Env_EnvVar :: string
  Env_Value :: string

record DockerConfig =
  Docker_Image :: string
  Docker_Flags :: "FlagConfig list"
  Docker_Envs :: "EnvVarConfig list"
  Docker_Records :: "RecordConfig list"
  Docker_MemoryMB :: nat
  Docker_CPU :: real

record VBoxConfig =
  VBox_Image :: string
  VBox_MemoryMB :: nat
  VBox_Flags :: "FlagConfig list"

record Config =
  Conf_Name :: string
  Conf_Tags :: "string list"
  Conf_DockerConfs :: "DockerConfig list"
  Conf_VBoxConfig :: "VBoxConfig list"

text \<open>
  Modelled from the spec: the types \<^verbatim>\<open>docker.Resources\<close> and
  \<^verbatim>\<open>docker.ContainerConfig\<close> are declared outside these sources. The launch spec
  carries the fields that \<^verbatim>\<open>ContainerOpts\<close> and \<^verbatim>\<open>Create\<close> read and write:
  image, resources, the environment map, the DNS servers and the MAC address.
\<close>

record Resources =
  Res_MemoryMB :: nat
  Res_CPU :: real

record ContainerConfig =
  CC_Image :: string
  CC_Resources :: Resources
  CC_EnvVars :: "string \<rightharpoonup> string"
  CC_DNS :: "string list"
  CC_MacAddress :: string

subsection \<open>Machines and collaborators\<close>

text \<open>
  A \<^verbatim>\<open>virtual.Instance\<close> is either a container made by the container runtime or a
  virtual machine copied by the hypervisor library; both are handles.
\<close>

type_synonym container = nat
type_synonym vm = nat

datatype Instance = ContainerInst container | VMInst vm

text \<open>
  Every call that leaves the package is written to a log, in order. What a collaborator
  answers may depend on everything that was called before, so each collaborator is a
  function of the log so far and of the arguments of the call.
\<close>

datatype call =
    CreateContainerCall ContainerConfig
  | ConnectCall container string "int list"
  | GetCopyCall string string
  | CloseCall Instance
  | StartCall Instance

record backends =
  docker_CreateContainer :: "call list \<Rightarrow> ContainerConfig \<Rightarrow> error + container"
  net_Connect :: "call list \<Rightarrow> container \<Rightarrow> string \<Rightarrow> int list \<Rightarrow> error + int"
  net_FormatIP :: "int \<Rightarrow> string"
  net_Interface :: string
  lib_GetCopy :: "call list \<Rightarrow> string \<Rightarrow> string \<Rightarrow> error + vm"
  inst_Close :: "call list \<Rightarrow> Instance \<Rightarrow> error option"
  inst_Start :: "call list \<Rightarrow> Instance \<Rightarrow> error option"

text \<open>
  The \<^verbatim>\<open>exercise\<close> struct. \<open>ips\<close> distinguishes Go's \<^verbatim>\<open>nil\<close> slice (\<open>None\<close>)
  from a slice that was appended to, because \<^verbatim>\<open>Create\<close> tests \<^verbatim>\<open>e.ips != nil\<close>.
  The handles \<^verbatim>\<open>net\<close>, \<^verbatim>\<open>dockerHost\<close> and \<^verbatim>\<open>lib\<close> are the \<open>backends\<close>.
\<close>

record exercise =
  conf :: Config
  flags :: "unit list"
  machines :: "Instance list"
  ips :: "int list option"
  dnsIP :: string
  dnsRecords :: "RecordConfig list"

subsection \<open>The container-expansion view of the blueprint\<close>

text \<open>The two inner loops of \<^verbatim>\<open>ContainerOpts\<close> assign into the map, key by key.\<close>

fun set_flags :: "(string \<rightharpoonup> string) \<Rightarrow> FlagConfig list \<Rightarrow> (string \<rightharpoonup> string)" where
  "set_flags envVars [] = envVars"
| "set_flags envVars (flag # rest) =
     set_flags (envVars(Flag_EnvVar flag \<mapsto> Flag_Default flag)) rest"

fun set_envs :: "(string \<rightharpoonup> string) \<Rightarrow> EnvVarConfig list \<Rightarrow> (string \<rightharpoonup> string)" where
  "set_envs envVars [] = envVars"
| "set_envs envVars (env # rest) =
     set_envs (envVars(Env_EnvVar env \<mapsto> Env_Value env)) rest"

text \<open>The body of the outer loop: the launch spec of one container spec. The fields
  the struct literal leaves out have Go's zero values.\<close>

definition container_spec :: "DockerConfig \<Rightarrow> ContainerConfig" where
  "container_spec dockerConf =
     (let envVars = set_envs (set_flags Map.empty (Docker_Flags dockerConf)) (Docker_Envs dockerConf)
      in \<lparr> CC_Image = Docker_Image dockerConf,
           CC_Resources = \<lparr> Res_MemoryMB = Docker_MemoryMB dockerConf, Res_CPU = Docker_CPU dockerConf \<rparr>,
           CC_EnvVars = envVars,
           CC_DNS = [],
           CC_MacAddress = [] \<rparr>)"

fun ContainerOpts_loop ::
  "DockerConfig list \<Rightarrow> ContainerConfig list \<Rightarrow> RecordConfig list list
     \<Rightarrow> ContainerConfig list \<times> RecordConfig list list" where
  "ContainerOpts_loop [] contSpecs contRecords = (contSpecs, contRecords)"
| "ContainerOpts_loop (dockerConf # rest) contSpecs contRecords =
     ContainerOpts_loop rest (contSpecs @ [container_spec dockerConf]) (contRecords @ [Docker_Records dockerConf])"

definition ContainerOpts :: "Config \<Rightarrow> ContainerConfig list \<times> RecordConfig list list" where
  "ContainerOpts ec = ContainerOpts_loop (Conf_DockerConfs ec) [] []"

subsection \<open>Create\<close>

text \<open>Go's \<^verbatim>\<open>append\<close> on a slice that may be \<^verbatim>\<open>nil\<close>: the result never is.\<close>

definition append_ip :: "int list option \<Rightarrow> int \<Rightarrow> int list option" where
  "append_ip s x = (case s of None \<Rightarrow> Some [x] | Some xs \<Rightarrow> Some (xs @ [x]))"

definition resolve_record :: "string \<Rightarrow> RecordConfig \<Rightarrow> RecordConfig" where
  "resolve_record ipaddr record =
     (if Record_RData record = [] then record\<lparr>Record_RData := ipaddr\<rparr> else record)"

fun append_records :: "exercise \<Rightarrow> string \<Rightarrow> RecordConfig list \<Rightarrow> exercise" where
  "append_records e ipaddr [] = e"
| "append_records e ipaddr (record # rest) =
     append_records (e\<lparr>dnsRecords := dnsRecords e @ [resolve_record ipaddr record]\<rparr>) ipaddr rest"

text \<open>
  Connecting container \<open>i\<close> to the network: with the recorded suffix \<^verbatim>\<open>e.ips[i]\<close> when
  \<^verbatim>\<open>e.ips\<close> is not nil (an index out of range panics), else with no suffix, and then
  the assigned one is appended to \<^verbatim>\<open>newIps\<close>. \<open>Inl\<close> ends \<^verbatim>\<open>Create\<close>; \<open>Inr\<close> carries
  \<^verbatim>\<open>lastDigit\<close> and \<^verbatim>\<open>newIps\<close>.
\<close>

definition Create_connect ::
  "backends \<Rightarrow> exercise \<Rightarrow> nat \<Rightarrow> container \<Rightarrow> ContainerConfig \<Rightarrow> int list option \<Rightarrow> call list
     \<Rightarrow> (outcome + int \<times> int list option) \<times> call list" where
  "Create_connect b e i c spec newIps w =
     (case ips e of
        Some xs \<Rightarrow>
          if i < length xs then
            (case net_Connect b w c (CC_MacAddress spec) [xs ! i] of
               Inl err \<Rightarrow>
                 (Inl (Returns (Some err)), w @ [ConnectCall c (CC_MacAddress spec) [xs ! i]])
             | Inr lastDigit \<Rightarrow>
                 (Inr (lastDigit, newIps), w @ [ConnectCall c (CC_MacAddress spec) [xs ! i]]))
          else (Inl Panics, w)
      | None \<Rightarrow>
          (case net_Connect b w c (CC_MacAddress spec) [] of
             Inl err \<Rightarrow> (Inl (Returns (Some err)), w @ [ConnectCall c (CC_MacAddress spec) []])
           | Inr lastDigit \<Rightarrow>
               (Inr (lastDigit, append_ip newIps lastDigit),
                w @ [ConnectCall c (CC_MacAddress spec) []])))"

text \<open>
  The loop over the container specs, from index \<open>i\<close>. The first component of the result
  is \<open>Some\<close> when the loop ended \<^verbatim>\<open>Create\<close> (an error was returned, or a panic), and
  \<open>None\<close> when it ran to its end. The exercise is passed along because the loop appends
  to \<^verbatim>\<open>e.dnsRecords\<close> as it goes; \<^verbatim>\<open>machines\<close> and \<^verbatim>\<open>newIps\<close> are the locals.
\<close>

fun Create_containers ::
  "backends \<Rightarrow> RecordConfig list list \<Rightarrow> nat \<Rightarrow> ContainerConfig list \<Rightarrow> exercise
     \<Rightarrow> Instance list \<Rightarrow> int list option \<Rightarrow> call list
     \<Rightarrow> outcome option \<times> exercise \<times> Instance list \<times> int list option \<times> call list" where
  "Create_containers b records i [] e ms newIps w = (None, e, ms, newIps, w)"
| "Create_containers b records i (spec0 # rest) e ms newIps w =
     (let spec = spec0\<lparr>CC_DNS := [dnsIP e]\<rparr>;
          w1 = w @ [CreateContainerCall spec]
      in case docker_CreateContainer b w spec of
           Inl err \<Rightarrow> (Some (Returns (Some err)), e, ms, newIps, w1)
         | Inr c \<Rightarrow>
             (case Create_connect b e i c spec newIps w1 of
                (Inl out, w2) \<Rightarrow> (Some out, e, ms, newIps, w2)
              | (Inr (lastDigit, newIps'), w2) \<Rightarrow>
                  if i < length records then
                    Create_containers b records (Suc i) rest
                      (append_records e (net_FormatIP b lastDigit) (records ! i))
                      (ms @ [ContainerInst c]) newIps' w2
                  else (Some Panics, e, ms, newIps', w2)))"

fun Create_vms ::
  "backends \<Rightarrow> VBoxConfig list \<Rightarrow> Instance list \<Rightarrow> call list
     \<Rightarrow> error option \<times> Instance list \<times> call list" where
  "Create_vms b [] ms w = (None, ms, w)"
| "Create_vms b (spec # rest) ms w =
     (case lib_GetCopy b w (VBox_Image spec) (net_Interface b) of
        Inl err \<Rightarrow> (Some err, ms, w @ [GetCopyCall (VBox_Image spec) (net_Interface b)])
      | Inr vm \<Rightarrow>
          Create_vms b rest (ms @ [VMInst vm])
            (w @ [GetCopyCall (VBox_Image spec) (net_Interface b)]))"

definition Create :: "backends \<Rightarrow> exercise \<Rightarrow> call list \<Rightarrow> outcome \<times> exercise \<times> call list" where
  "Create b e w =
     (case ContainerOpts (conf e) of
        (containers, records) \<Rightarrow>
          (case Create_containers b records 0 containers e [] None w of
             (Some out, e1, ms, newIps, w1) \<Rightarrow> (out, e1, w1)
           | (None, e1, ms, newIps, w1) \<Rightarrow>
               (case Create_vms b (Conf_VBoxConfig (conf e1)) ms w1 of
                  (Some err, ms2, w2) \<Rightarrow> (Returns (Some err), e1, w2)
                | (None, ms2, w2) \<Rightarrow>
                    (Returns None,
                     (if ips e1 = None then e1\<lparr>ips := newIps\<rparr> else e1)\<lparr>machines := ms2\<rparr>,
                     w2))))"

subsection \<open>Start, Stop, Close, Reset\<close>

fun Start_loop :: "backends \<Rightarrow> Instance list \<Rightarrow> call list \<Rightarrow> error option \<times> call list" where
  "Start_loop b [] w = (None, w)"
| "Start_loop b (m # ms) w =
     (case inst_Start b w m of
        Some err \<Rightarrow> (Some err, w @ [StartCall m])
      | None \<Rightarrow> Start_loop b ms (w @ [StartCall m]))"

definition Start :: "backends \<Rightarrow> exercise \<Rightarrow> call list \<Rightarrow> error option \<times> exercise \<times> call list" where
  "Start b e w = (case Start_loop b (machines e) w of (r, w') \<Rightarrow> (r, e, w'))"

fun Stop_loop :: "backends \<Rightarrow> Instance list \<Rightarrow> call list \<Rightarrow> error option \<times> call list" where
  "Stop_loop b [] w = (None, w)"
| "Stop_loop b (m # ms) w =
     (case inst_Close b w m of
        Some err \<Rightarrow> (Some err, w @ [CloseCall m])
      | None \<Rightarrow> Stop_loop b ms (w @ [CloseCall m]))"

definition Stop :: "backends \<Rightarrow> exercise \<Rightarrow> call list \<Rightarrow> error option \<times> exercise \<times> call list" where
  "Stop b e w = (case Stop_loop b (machines e) w of (r, w') \<Rightarrow> (r, e, w'))"

fun Close_loop :: "backends \<Rightarrow> Instance list \<Rightarrow> call list \<Rightarrow> error option \<times> call list" where
  "Close_loop b [] w = (None, w)"
| "Close_loop b (m # ms) w =
     (case inst_Close b w m of
        Some err \<Rightarrow> (Some err, w @ [CloseCall m])
      | None \<Rightarrow> Close_loop b ms (w @ [CloseCall m]))"

definition Close :: "backends \<Rightarrow> exercise \<Rightarrow> call list \<Rightarrow> error option \<times> exercise \<times> call list" where
  "Close b e w =
     (case Close_loop b (machines e) w of
        (Some err, w') \<Rightarrow> (Some err, e, w')
      | (None, w') \<Rightarrow> (None, e\<lparr>machines := []\<rparr>, w'))"

definition Reset :: "backends \<Rightarrow> exercise \<Rightarrow> call list \<Rightarrow> error option \<times> exercise \<times> call list" where
  "Reset b e w =
     (case Stop b e w of
        (Some err, e', w') \<Rightarrow> (Some err, e', w')
      | (None, e', w') \<Rightarrow>
          (case Start b e' w' of
             (Some err, e'', w'') \<Rightarrow> (Some err, e'', w'')
           | (None, e'', w'') \<Rightarrow> (None, e'', w'')))"

text \<open>
  The answer machine \<open>i\<close> of the list gives to \<^verbatim>\<open>Close\<close> when the machines before it
  were closed without error, starting from the log \<open>w\<close>.
\<close>

definition close_answer :: "backends \<Rightarrow> call list \<Rightarrow> Instance list \<Rightarrow> nat \<Rightarrow> error option" where
  "close_answer b w ms i = inst_Close b (w @ map CloseCall (take i ms)) (ms ! i)"

subsection \<open>Notions used to state the properties of Create\<close>

text \<open>The length of a slice that may be \<^verbatim>\<open>nil\<close> (Go's \<^verbatim>\<open>len\<close>).\<close>

definition slice_len :: "'a list option \<Rightarrow> nat" where
  "slice_len s = (case s of None \<Rightarrow> 0 | Some xs \<Rightarrow> length xs)"


text \<open>The DNS records of the containers, each resolved with the address of the suffix
  its container got: what the container loop appends to \<^verbatim>\<open>e.dnsRecords\<close>.\<close>

definition resolved_records :: "backends \<Rightarrow> int list \<Rightarrow> RecordConfig list list \<Rightarrow> RecordConfig list" where
  "resolved_records b ds records =
     concat (map (\<lambda>(d, rs). map (resolve_record (net_FormatIP b d)) rs) (zip ds records))"

section \<open>The lab package: the hub\<close>

subsection \<open>Semaphores\<close>

text \<open>
  A semaphore is a buffered channel of empty structs: \<open>permits\<close> is the number of
  elements in the channel (\<^verbatim>\<open>len(s.r)\<close>) and \<open>sem_cap\<close> its capacity. A receive from
  an empty channel and a send to a full one block; \<open>None\<close> stands for blocking, and
  for the panic of \<^verbatim>\<open>make\<close> on a negative size in \<open>newSemaphore\<close>.
\<close>

record semaphore =
  permits :: nat
  sem_cap :: nat

definition newSemaphore :: "int \<Rightarrow> semaphore option" where
  "newSemaphore n = (if n < 0 then None else Some \<lparr> permits = nat n, sem_cap = nat n \<rparr>)"

definition claim :: "semaphore \<Rightarrow> semaphore option" where
  "claim s = (if permits s = 0 then None else Some (s\<lparr>permits := permits s - 1\<rparr>))"

definition available :: "semaphore \<Rightarrow> int" where
  "available s = int (permits s)"

definition release :: "semaphore \<Rightarrow> semaphore option" where
  "release s = (if permits s < sem_cap s then Some (s\<lparr>permits := permits s + 1\<rparr>) else None)"

subsection \<open>The hub and its collaborators\<close>

text \<open>
  A \<^verbatim>\<open>Lab\<close> is an interface value: \<^verbatim>\<open>nil\<close>, or a lab that the lab host built. The
  warm buffer is a buffered channel of labs; \<open>closed\<close> is set by the hub's own
  \<^verbatim>\<open>Close\<close>, which is not embedded here, and read by \<^verbatim>\<open>addLab\<close> and \<^verbatim>\<open>Get\<close>.
\<close>

datatype Lab = NilLab | LabRef nat

record lab_chan =
  items :: "Lab list"
  chan_cap :: nat
  closed :: bool

text \<open>
  The calls that leave \<^verbatim>\<open>addLab\<close>, logged in order, with the blueprint \<open>'cf\<close> and
  the hypervisor handle \<open>'vb\<close> (both are passed on and never looked into). The answers
  of the lab host and of the labs are functions of the log so far.
\<close>

datatype ('cf, 'vb) lab_call = NewLabCall 'vb 'cf | LabStartCall Lab

record ('cf, 'vb) lab_host =
  host_NewLab :: "('cf, 'vb) lab_call list \<Rightarrow> 'vb \<Rightarrow> 'cf \<Rightarrow> error + Lab"
  lab_Start :: "('cf, 'vb) lab_call list \<Rightarrow> Lab \<Rightarrow> error option"

text \<open>What a \<^verbatim>\<open>go\<close> statement starts: the function returns the goroutines it started,
  and does not run them.\<close>

datatype goroutine = AddLabTask | CloseLabTask Lab

text \<open>
  The \<^verbatim>\<open>hub\<close> struct. \<open>numbLabs\<close> is an \<^verbatim>\<open>int32\<close>, changed by \<^verbatim>\<open>atomic.AddInt32\<close>,
  which wraps. The mutex is never locked in these sources, the context is the background
  context, and the lab host is the \<open>lab_host\<close> that the functions take.
\<close>

record ('cf, 'vb) hub =
  vboxLib :: 'vb
  hub_conf :: 'cf
  createSema :: semaphore
  maximumSema :: semaphore
  labs :: "Lab list"
  buffer :: lab_chan
  numbLabs :: "32 word"

definition BUFFERSIZE :: int where
  "BUFFERSIZE = 5"

subsection \<open>addLab\<close>

text \<open>
  The part of \<^verbatim>\<open>addLab\<close> that runs while the creation permit is held: build the lab,
  start it, offer it to the buffer without blocking. A send on a closed channel panics,
  also inside a \<^verbatim>\<open>select\<close> with a default; so does \<^verbatim>\<open>Start\<close> on a nil lab.
\<close>

definition addLab_body ::
  "('cf, 'vb) lab_host \<Rightarrow> ('cf, 'vb) hub \<Rightarrow> ('cf, 'vb) lab_call list
     \<Rightarrow> outcome \<times> ('cf, 'vb) hub \<times> ('cf, 'vb) lab_call list \<times> goroutine list" where
  "addLab_body host h w =
     (case host_NewLab host w (vboxLib h) (hub_conf h) of
        Inl err \<Rightarrow> (Returns (Some err), h, w @ [NewLabCall (vboxLib h) (hub_conf h)], [])
      | Inr NilLab \<Rightarrow> (Panics, h, w @ [NewLabCall (vboxLib h) (hub_conf h)], [])
      | Inr lab \<Rightarrow>
          (let w1 = w @ [NewLabCall (vboxLib h) (hub_conf h)] in
           case lab_Start host w1 lab of
             Some err \<Rightarrow> (Returns (Some err), h, w1 @ [LabStartCall lab], [CloseLabTask lab])
           | None \<Rightarrow>
               if closed (buffer h) then (Panics, h, w1 @ [LabStartCall lab], [])
               else if length (items (buffer h)) < chan_cap (buffer h) then
                 (Returns None,
                  h\<lparr>buffer := (buffer h)\<lparr>items := items (buffer h) @ [lab]\<rparr>,
                    numbLabs := numbLabs h + 1\<rparr>,
                  w1 @ [LabStartCall lab], [])
               else (Returns None, h, w1 @ [LabStartCall lab], [])))"

text \<open>The deferred \<^verbatim>\<open>h.createSema.release()\<close>: it runs on every way out of the body,
  and blocks when the channel is full.\<close>

definition addLab_deferred ::
  "outcome \<times> ('cf, 'vb) hub \<times> ('cf, 'vb) lab_call list \<times> goroutine list
     \<Rightarrow> outcome \<times> ('cf, 'vb) hub \<times> ('cf, 'vb) lab_call list \<times> goroutine list" where
  "addLab_deferred r =
     (case r of (out, h, w, gos) \<Rightarrow>
        (case release (createSema h) of
           None \<Rightarrow> (Blocks, h, w, gos)
         | Some s \<Rightarrow> (out, h\<lparr>createSema := s\<rparr>, w, gos)))"

definition addLab ::
  "('cf, 'vb) lab_host \<Rightarrow> ('cf, 'vb) hub \<Rightarrow> ('cf, 'vb) lab_call list
     \<Rightarrow> outcome \<times> ('cf, 'vb) hub \<times> ('cf, 'vb) lab_call list \<times> goroutine list" where
  "addLab host h w =
     (if available (maximumSema h) = 0 then (Returns (Some MaximumLabsErr), h, w, [])
      else
        (case claim (maximumSema h) of
           None \<Rightarrow> (Blocks, h, w, [])
         | Some ms \<Rightarrow>
             (case claim (createSema h) of
                None \<Rightarrow> (Blocks, h\<lparr>maximumSema := ms\<rparr>, w, [])
              | Some cs \<Rightarrow>
                  addLab_deferred (addLab_body host (h\<lparr>maximumSema := ms, createSema := cs\<rparr>) w))))"

subsection \<open>NewHub and init\<close>

text \<open>
  \<^verbatim>\<open>init\<close> starts one goroutine for each lab of the warm buffer, each running
  \<^verbatim>\<open>addLab\<close>, and waits for all of them; errors are logged and dropped. The goroutines are
  run here one after the other, which is one of the schedules. Messages to the logger
  are left out.
\<close>

fun init_loop ::
  "('cf, 'vb) lab_host \<Rightarrow> nat \<Rightarrow> ('cf, 'vb) hub \<Rightarrow> ('cf, 'vb) lab_call list \<Rightarrow> goroutine list
     \<Rightarrow> outcome \<times> ('cf, 'vb) hub \<times> ('cf, 'vb) lab_call list \<times> goroutine list" where
  "init_loop host 0 h w gos = (Returns None, h, w, gos)"
| "init_loop host (Suc n) h w gos =
     (case addLab host h w of
        (Returns err, h', w', gos') \<Rightarrow> init_loop host n h' w' (gos @ gos')
      | (out, h', w', gos') \<Rightarrow> (out, h', w', gos @ gos'))"

text \<open>
  \<^verbatim>\<open>NewHub\<close> returns a hub or \<^verbatim>\<open>nil\<close>, and an error. \<^verbatim>\<open>make\<close> panics on a negative
  size, for the capacity semaphore and for the buffer.
\<close>

definition NewHub ::
  "('cf, 'vb) lab_host \<Rightarrow> 'cf \<Rightarrow> 'vb \<Rightarrow> int \<Rightarrow> int \<Rightarrow> ('cf, 'vb) lab_call list
     \<Rightarrow> ('cf, 'vb) hub option \<times> outcome \<times> ('cf, 'vb) lab_call list \<times> goroutine list" where
  "NewHub host cf vb avail cap w =
     (if avail > cap then (None, Returns (Some AvailableSizeErr), w, [])
      else
        (case newSemaphore 3 of
           None \<Rightarrow> (None, Panics, w, [])
         | Some cs \<Rightarrow>
             (case newSemaphore cap of
                None \<Rightarrow> (None, Panics, w, [])
              | Some ms \<Rightarrow>
                  if avail < 0 then (None, Panics, w, [])
                  else
                    (case init_loop host (nat avail)
                            \<lparr> vboxLib = vb, hub_conf = cf, createSema = cs, maximumSema = ms,
                              labs = [],
                              buffer = \<lparr> items = [], chan_cap = nat avail, closed = False \<rparr>,
                              numbLabs = 0 \<rparr> w [] of
                       (Returns err, h, w', gos) \<Rightarrow> (Some h, Returns None, w', gos)
                     | (out, h, w', gos) \<Rightarrow> (None, out, w', gos)))))"

subsection \<open>Available and Get\<close>

definition Available :: "('cf, 'vb) hub \<Rightarrow> 32 word" where
  "Available h = numbLabs h"

text \<open>
  What \<^verbatim>\<open>Get\<close> does once the \<^verbatim>\<open>select\<close> has received \<open>lab\<close> from the buffer. The
  comparison with \<^verbatim>\<open>BUFFERSIZE\<close> is signed.
\<close>

definition Get_received ::
  "Lab \<Rightarrow> ('cf, 'vb) hub \<Rightarrow> (Lab \<times> error option) \<times> ('cf, 'vb) hub \<times> goroutine list" where
  "Get_received lab h =
     (let h1 = h\<lparr>numbLabs := numbLabs h - 1\<rparr>;
          gos = (if sint (numbLabs h1) < BUFFERSIZE then [AddLabTask] else [])
      in ((lab, None), h1\<lparr>labs := labs h1 @ [lab]\<rparr>, gos))"

text \<open>
  \<^verbatim>\<open>Get\<close>: a receive from the buffer with a default. A closed and empty channel is
  ready to receive, and yields the zero value \<^verbatim>\<open>nil\<close>.
\<close>

definition Get ::
  "('cf, 'vb) hub \<Rightarrow> (Lab \<times> error option) \<times> ('cf, 'vb) hub \<times> goroutine list" where
  "Get h =
     (case items (buffer h) of
        lab # rest \<Rightarrow> Get_received lab (h\<lparr>buffer := (buffer h)\<lparr>items := rest\<rparr>\<rparr>)
      | [] \<Rightarrow>
          if closed (buffer h) then Get_received NilLab h
          else ((NilLab, Some MaximumLabsErr), h, []))"

text \<open>
  A hub between calls, before it is closed: the buffer is open and within its capacity,
  and the counter is the number of labs in the buffer, as an \<^verbatim>\<open>int32\<close>.
\<close>

definition hub_consistent :: "('cf, 'vb) hub \<Rightarrow> bool" where
  "hub_consistent h \<longleftrightarrow>
     \<not> closed (buffer h)
     \<and> length (items (buffer h)) \<le> chan_cap (buffer h)
     \<and> chan_cap (buffer h) < 2 ^ 31
     \<and> sint (numbLabs h) = int (length (items (buffer h)))"

section \<open>A sample blueprint and sample collaborators\<close>

text \<open>
  Two container specs and one VM spec. The sample network hands out the length of the
  call log as suffix when none is asked for, and the requested suffix otherwise; the
  machine \<open>VMInst 2\<close> refuses to close.
\<close>

definition demo_conf :: Config where
  "demo_conf =
     \<lparr> Conf_Name = ''demo'', Conf_Tags = [''demo''],
       Conf_DockerConfs =
         [\<lparr> Docker_Image = ''web'',
             Docker_Flags = [\<lparr> Flag_Name = ''f1'', Flag_EnvVar = ''FLAG'', Flag_Default = ''aaa'', Flag_Points = 5 \<rparr>],
             Docker_Envs = [\<lparr> Env_EnvVar = ''MODE'', Env_Value = ''prod'' \<rparr>],
             Docker_Records = [\<lparr> Record_Name = ''web.local'', Record_Type = ''A'', Record_RData = '''' \<rparr>],
             Docker_MemoryMB = 64, Docker_CPU = 1 \<rparr>,
          \<lparr> Docker_Image = ''db'',
             Docker_Flags = [],
             Docker_Envs = [],
             Docker_Records = [\<lparr> Record_Name = ''db.local'', Record_Type = ''A'', Record_RData = ''10.0.0.9'' \<rparr>],
             Docker_MemoryMB = 128, Docker_CPU = 2 \<rparr>],
       Conf_VBoxConfig = [\<lparr> VBox_Image = ''kali.ova'', VBox_MemoryMB = 2048, VBox_Flags = [] \<rparr>] \<rparr>"

definition demo_backends :: backends where
  "demo_backends =
     \<lparr> docker_CreateContainer = (\<lambda>w spec. Inr (length w)),
       net_Connect = (\<lambda>w c mac req. case req of [] \<Rightarrow> Inr (int (length w)) | x # _ \<Rightarrow> Inr x),
       net_FormatIP = (\<lambda>d. if d = 1 then ''172.16.5.1'' else if d = 3 then ''172.16.5.3'' else ''172.16.5.0''),
       net_Interface = ''br0'',
       lib_GetCopy = (\<lambda>w image bridge. Inr (length w)),
       inst_Close = (\<lambda>w m. if m = VMInst 2 then Some (ExternalErr ''busy'') else None),
       inst_Start = (\<lambda>w m. None) \<rparr>"

definition demo_exercise :: exercise where
  "demo_exercise =
     \<lparr> conf = demo_conf, flags = [], machines = [], ips = None, dnsIP = ''172.16.5.53'',
       dnsRecords = [] \<rparr>"

text \<open>The same collaborators, with a hypervisor library that has no image to copy.\<close>

definition failing_backends :: backends where
  "failing_backends =
     demo_backends\<lparr>lib_GetCopy := (\<lambda>w image bridge. Inl (ExternalErr ''no such image''))\<rparr>"

text \<open>A blueprint whose only container spec names the key \<open>MODE\<close> three times: in a flag
  definition and in two overrides.\<close>

definition dup_blueprint :: Config where
  "dup_blueprint =
     \<lparr> Conf_Name = ''dup'', Conf_Tags = [''dup''],
       Conf_DockerConfs =
         [\<lparr> Docker_Image = ''web'',
             Docker_Flags =
               [\<lparr> Flag_Name = ''f1'', Flag_EnvVar = ''FLAG'', Flag_Default = ''aaa'', Flag_Points = 5 \<rparr>,
                \<lparr> Flag_Name = ''f2'', Flag_EnvVar = ''MODE'', Flag_Default = ''bbb'', Flag_Points = 1 \<rparr>],
             Docker_Envs =
               [\<lparr> Env_EnvVar = ''MODE'', Env_Value = ''dev'' \<rparr>,
                \<lparr> Env_EnvVar = ''MODE'', Env_Value = ''prod'' \<rparr>],
             Docker_Records = [],
             Docker_MemoryMB = 64, Docker_CPU = 1 \<rparr>],
       Conf_VBoxConfig = [] \<rparr>"

text \<open>
  A lab host that numbers its labs by the length of the call log, one that cannot build
  any lab, and a hub as \<open>NewHub\<close> leaves it for a warm buffer of 2 and a hard cap of 5.
\<close>

definition demo_host :: "(string, string) lab_host" where
  "demo_host =
     \<lparr> host_NewLab = (\<lambda>w vb cf. Inr (LabRef (length w))),
       lab_Start = (\<lambda>w lab. None) \<rparr>"

definition failing_host :: "(string, string) lab_host" where
  "failing_host = demo_host\<lparr>host_NewLab := (\<lambda>w vb cf. Inl (ExternalErr ''no such image''))\<rparr>"

definition demo_hub :: "(string, string) hub" where
  "demo_hub =
     \<lparr> vboxLib = ''vbox'', hub_conf = ''blueprint'',
       createSema = \<lparr> permits = 3, sem_cap = 3 \<rparr>,
       maximumSema = \<lparr> permits = 3, sem_cap = 5 \<rparr>,
       labs = [],
       buffer = \<lparr> items = [LabRef 0, LabRef 2], chan_cap = 2, closed = False \<rparr>,
       numbLabs = 2 \<rparr>"

section \<open>Closing and stopping an exercise\<close>

lemma close_answer_Cons_Suc:
  "close_answer b w (m # ms) (Suc i) = close_answer b (w @ [CloseCall m]) ms i"
  by (simp add: close_answer_def)

lemma close_answer_Cons_0: "close_answer b w (m # ms) 0 = inst_Close b w m"
  by (simp add: close_answer_def)

lemma Close_loop_all_ok:
  "(\<forall>i<length ms. close_answer b w ms i = None) \<Longrightarrow>
   Close_loop b ms w = (None, w @ map CloseCall ms)"
proof (induction ms arbitrary: w)
  case Nil
  show ?case by simp
next
  case (Cons m ms)
  from Cons.prems have h0: "inst_Close b w m = None"
    using close_answer_Cons_0 [of b w m ms] by auto
  have "\<forall>i<length ms. close_answer b (w @ [CloseCall m]) ms i = None"
  proof (intro allI impI)
    fix i assume "i < length ms"
    then have "close_answer b w (m # ms) (Suc i) = None" using Cons.prems by auto
    then show "close_answer b (w @ [CloseCall m]) ms i = None"
      by (simp add: close_answer_Cons_Suc)
  qed
  then have "Close_loop b ms (w @ [CloseCall m]) = (None, (w @ [CloseCall m]) @ map CloseCall ms)"
    by (rule Cons.IH)
  with h0 show ?case by simp
qed

lemma Close_loop_first_failure:
  "i < length ms \<Longrightarrow> (\<forall>j<i. close_answer b w ms j = None) \<Longrightarrow>
   close_answer b w ms i = Some err \<Longrightarrow>
   Close_loop b ms w = (Some err, w @ map CloseCall (take (Suc i) ms))"
proof (induction ms arbitrary: w i)
  case Nil
  then show ?case by simp
next
  case (Cons m ms)
  show ?case
  proof (cases i)
    case 0
    with Cons.prems have "inst_Close b w m = Some err"
      by (simp add: close_answer_Cons_0)
    with 0 show ?thesis by simp
  next
    case (Suc k)
    with Cons.prems have k: "k < length ms" by simp
    have h0: "inst_Close b w m = None"
      using Cons.prems(2) Suc close_answer_Cons_0 [of b w m ms] by auto
    have prev: "\<forall>j<k. close_answer b (w @ [CloseCall m]) ms j = None"
    proof (intro allI impI)
      fix j assume "j < k"
      then have "close_answer b w (m # ms) (Suc j) = None" using Cons.prems(2) Suc by auto
      then show "close_answer b (w @ [CloseCall m]) ms j = None"
        by (simp add: close_answer_Cons_Suc)
    qed
    have at: "close_answer b (w @ [CloseCall m]) ms k = Some err"
      using Cons.prems(3) Suc by (simp add: close_answer_Cons_Suc)
    have "Close_loop b ms (w @ [CloseCall m]) =
            (Some err, (w @ [CloseCall m]) @ map CloseCall (take (Suc k) ms))"
      using k prev at by (rule Cons.IH)
    with h0 Suc show ?thesis by simp
  qed
qed

lemma Stop_loop_eq_Close_loop: "Stop_loop b ms w = Close_loop b ms w"
  by (induction ms arbitrary: w) (auto split: option.splits)

text \<open>
  Claim C8. For an exercise with N machines, \<^verbatim>\<open>Close\<close> returns no error and leaves an
  empty machine list when every machine closes without error. When machine \<open>i\<close> is the
  first whose close fails, with error \<open>err\<close>, \<^verbatim>\<open>Close\<close> returns \<open>err\<close>, the machine list
  is what it was (all N entries), and the machines after \<open>i\<close> were not asked to close.
\<close>

theorem Close_clears_only_on_full_success:
  "((\<forall>i<length (machines e). close_answer b w (machines e) i = None) \<longrightarrow>
      fst (Close b e w) = None \<and> machines (fst (snd (Close b e w))) = [])
   \<and> (i < length (machines e) \<and> (\<forall>j<i. close_answer b w (machines e) j = None)
          \<and> close_answer b w (machines e) i = Some err \<longrightarrow>
        fst (Close b e w) = Some err \<and> machines (fst (snd (Close b e w))) = machines e
        \<and> snd (snd (Close b e w)) = w @ map CloseCall (take (Suc i) (machines e)))"
proof (intro conjI impI)
  assume "\<forall>i<length (machines e). close_answer b w (machines e) i = None"
  then have *: "Close_loop b (machines e) w = (None, w @ map CloseCall (machines e))"
    by (rule Close_loop_all_ok)
  show "fst (Close b e w) = None" using * by (simp add: Close_def)
  show "machines (fst (snd (Close b e w))) = []" using * by (simp add: Close_def)
next
  assume h: "i < length (machines e) \<and> (\<forall>j<i. close_answer b w (machines e) j = None)
          \<and> close_answer b w (machines e) i = Some err"
  then have *: "Close_loop b (machines e) w = (Some err, w @ map CloseCall (take (Suc i) (machines e)))"
    using Close_loop_first_failure [of i "machines e" b w err] by blast
  show "fst (Close b e w) = Some err" using * by (simp add: Close_def)
  show "machines (fst (snd (Close b e w))) = machines e" using * by (simp add: Close_def)
  show "snd (snd (Close b e w)) = w @ map CloseCall (take (Suc i) (machines e))"
    using * by (simp add: Close_def)
qed

theorem Close_clears_only_on_full_success_witness:
  "fst (Close demo_backends (demo_exercise\<lparr>machines := [ContainerInst 1, VMInst 2, VMInst 3]\<rparr>) [])
     = Some (ExternalErr ''busy'')
   \<and> machines (fst (snd (Close demo_backends
         (demo_exercise\<lparr>machines := [ContainerInst 1, VMInst 2, VMInst 3]\<rparr>) [])))
     = [ContainerInst 1, VMInst 2, VMInst 3]
   \<and> fst (Close demo_backends (demo_exercise\<lparr>machines := [ContainerInst 1, VMInst 3]\<rparr>) []) = None
   \<and> machines (fst (snd (Close demo_backends
         (demo_exercise\<lparr>machines := [ContainerInst 1, VMInst 3]\<rparr>) []))) = []"
  using Close_clears_only_on_full_success
      [of "demo_exercise\<lparr>machines := [ContainerInst 1, VMInst 2, VMInst 3]\<rparr>" demo_backends "[]"
          1 "ExternalErr ''busy''"]
    Close_clears_only_on_full_success
      [of "demo_exercise\<lparr>machines := [ContainerInst 1, VMInst 3]\<rparr>" demo_backends "[]"
          0 "ExternalErr ''busy''"]
  by (simp add: demo_backends_def demo_exercise_def close_answer_def All_less_Suc)

text \<open>
  Claim C10. \<^verbatim>\<open>Close\<close> is \<^verbatim>\<open>Stop\<close> followed, when \<^verbatim>\<open>Stop\<close> returned no error, by
  emptying the machine list: both return the same error, both make the same calls to
  the machines in the same order, and the exercises they leave differ in nothing else.
\<close>

theorem Close_is_Stop_then_clear:
  "Close b e w =
     (case Stop b e w of
        (None, e', w') \<Rightarrow> (None, e'\<lparr>machines := []\<rparr>, w')
      | (Some err, e', w') \<Rightarrow> (Some err, e', w'))
   \<and> fst (Close b e w) = fst (Stop b e w)
   \<and> snd (snd (Close b e w)) = snd (snd (Stop b e w))"
  by (simp add: Close_def Stop_def Stop_loop_eq_Close_loop split: prod.splits option.splits)

section \<open>Creating an exercise\<close>

lemma ContainerOpts_loop_eq:
  "ContainerOpts_loop confs cs rs = (cs @ map container_spec confs, rs @ map Docker_Records confs)"
  by (induction confs arbitrary: cs rs) auto

lemma ContainerOpts_eq:
  "ContainerOpts ec = (map container_spec (Conf_DockerConfs ec), map Docker_Records (Conf_DockerConfs ec))"
  by (simp add: ContainerOpts_def ContainerOpts_loop_eq)

lemma append_records_eq:
  "append_records e ipaddr rs = e\<lparr>dnsRecords := dnsRecords e @ map (resolve_record ipaddr) rs\<rparr>"
  by (induction rs arbitrary: e) auto

lemma Create_connect_Inr:
  "Create_connect b e i c spec newIps w = (Inr (d, n'), w2) \<Longrightarrow>
   w2 = w @ [ConnectCall c (CC_MacAddress spec) (case ips e of None \<Rightarrow> [] | Some xs \<Rightarrow> [xs ! i])]
   \<and> (case ips e of None \<Rightarrow> n' = append_ip newIps d | Some xs \<Rightarrow> n' = newIps \<and> i < length xs)"
  by (auto simp: Create_connect_def split: option.splits if_splits sum.splits)

lemma Create_connect_Inl:
  "Create_connect b e i c spec newIps w = (Inl out, w2) \<Longrightarrow>
   (out = Panics \<and> w2 = w \<and> (\<exists>xs. ips e = Some xs \<and> length xs \<le> i))
   \<or> ((\<exists>err. out = Returns (Some err))
       \<and> w2 = w @ [ConnectCall c (CC_MacAddress spec) (case ips e of None \<Rightarrow> [] | Some xs \<Rightarrow> [xs ! i])]
       \<and> (\<forall>xs. ips e = Some xs \<longrightarrow> i < length xs))"
  by (auto simp: Create_connect_def split: option.splits if_splits sum.splits)

lemma Create_containers_Cons_cases:
  assumes "Create_containers b records i (spec0 # rest) e ms newIps w = R"
  obtains
    (create_failed) err where
      "docker_CreateContainer b w (spec0\<lparr>CC_DNS := [dnsIP e]\<rparr>) = Inl err"
      "R = (Some (Returns (Some err)), e, ms, newIps,
            w @ [CreateContainerCall (spec0\<lparr>CC_DNS := [dnsIP e]\<rparr>)])"
  | (connect_ended) c out w2 where
      "docker_CreateContainer b w (spec0\<lparr>CC_DNS := [dnsIP e]\<rparr>) = Inr c"
      "Create_connect b e i c (spec0\<lparr>CC_DNS := [dnsIP e]\<rparr>) newIps
         (w @ [CreateContainerCall (spec0\<lparr>CC_DNS := [dnsIP e]\<rparr>)]) = (Inl out, w2)"
      "R = (Some out, e, ms, newIps, w2)"
  | (records_panic) c d n2 w2 where
      "docker_CreateContainer b w (spec0\<lparr>CC_DNS := [dnsIP e]\<rparr>) = Inr c"
      "Create_connect b e i c (spec0\<lparr>CC_DNS := [dnsIP e]\<rparr>) newIps
         (w @ [CreateContainerCall (spec0\<lparr>CC_DNS := [dnsIP e]\<rparr>)]) = (Inr (d, n2), w2)"
      "\<not> i < length records"
      "R = (Some Panics, e, ms, n2, w2)"
  | (continue) c d n2 w2 where
      "docker_CreateContainer b w (spec0\<lparr>CC_DNS := [dnsIP e]\<rparr>) = Inr c"
      "Create_connect b e i c (spec0\<lparr>CC_DNS := [dnsIP e]\<rparr>) newIps
         (w @ [CreateContainerCall (spec0\<lparr>CC_DNS := [dnsIP e]\<rparr>)]) = (Inr (d, n2), w2)"
      "i < length records"
      "R = Create_containers b records (Suc i) rest
             (append_records e (net_FormatIP b d) (records ! i)) (ms @ [ContainerInst c]) n2 w2"
  using assms
  by (auto simp: Let_def split: sum.splits prod.splits if_splits)

lemma Create_containers_frame:
  "Create_containers b records i cs e ms newIps w = (r, e', ms', n', w') \<Longrightarrow>
   conf e' = conf e \<and> flags e' = flags e \<and> machines e' = machines e \<and> ips e' = ips e
   \<and> dnsIP e' = dnsIP e"
proof (induction cs arbitrary: i e ms newIps w)
  case Nil
  then show ?case by simp
next
  case (Cons spec0 rest)
  from Cons.prems show ?case
  proof (cases rule: Create_containers_Cons_cases)
    case (continue c d n2 w2)
    from Cons.IH [OF continue(4) [symmetric]] show ?thesis
      by (simp add: append_records_eq)
  next
    case (create_failed err)
    then show ?thesis by simp
  next
    case (connect_ended c out w2)
    then show ?thesis by simp
  next
    case (records_panic c d n2 w2)
    then show ?thesis by simp
  qed
qed

lemma Create_containers_returns:
  "Create_containers b records i cs e ms newIps w = (Some out, e', ms', n', w') \<Longrightarrow>
   out \<noteq> Returns None"
proof (induction cs arbitrary: i e ms newIps w)
  case Nil
  then show ?case by simp
next
  case (Cons spec0 rest)
  from Cons.prems show ?case
  proof (cases rule: Create_containers_Cons_cases)
    case (continue c d n2 w2)
    from Cons.IH [OF continue(4) [symmetric]] show ?thesis .
  next
    case (connect_ended c out' w2)
    then show ?thesis using Create_connect_Inl [OF connect_ended(2)] by auto
  next
    case (create_failed err)
    then show ?thesis by simp
  next
    case (records_panic c d n2 w2)
    then show ?thesis by simp
  qed
qed


lemma Create_containers_newIps_nil:
  "Create_containers b records i cs e ms newIps w = (None, e', ms', n', w') \<Longrightarrow> ips e = None \<Longrightarrow>
   slice_len n' = slice_len newIps + length cs \<and> (cs = [] \<or> n' \<noteq> None)"
proof (induction cs arbitrary: i e ms newIps w)
  case Nil
  then show ?case by simp
next
  case (Cons spec0 rest)
  from Cons.prems(1) show ?case
  proof (cases rule: Create_containers_Cons_cases)
    case (continue c d n2 w2)
    have n2: "n2 = append_ip newIps d"
      using Create_connect_Inr [OF continue(2)] Cons.prems(2) by simp
    have "ips (append_records e (net_FormatIP b d) (records ! i)) = None"
      using Cons.prems(2) by (simp add: append_records_eq)
    from Cons.IH [OF continue(4) [symmetric] this]
    have "slice_len n' = slice_len n2 + length rest" and "rest = [] \<or> n' \<noteq> None" by auto
    moreover have "n' \<noteq> None" if "rest = []"
      using that continue(4) n2 by (auto simp: append_ip_def split: option.splits)
    ultimately show ?thesis using n2
      by (auto simp: slice_len_def append_ip_def split: option.splits)
  qed simp_all
qed

lemma Create_containers_newIps_kept:
  "Create_containers b records i cs e ms newIps w = (r, e', ms', n', w') \<Longrightarrow> ips e = Some xs \<Longrightarrow>
   n' = newIps"
proof (induction cs arbitrary: i e ms newIps w)
  case Nil
  then show ?case by simp
next
  case (Cons spec0 rest)
  from Cons.prems(1) show ?case
  proof (cases rule: Create_containers_Cons_cases)
    case (continue c d n2 w2)
    have n2: "n2 = newIps"
      using Create_connect_Inr [OF continue(2)] Cons.prems(2) by simp
    have "ips (append_records e (net_FormatIP b d) (records ! i)) = Some xs"
      using Cons.prems(2) by (simp add: append_records_eq)
    from Cons.IH [OF continue(4) [symmetric] this] n2 show ?thesis by simp
  next
    case (records_panic c d n2 w2)
    then show ?thesis using Create_connect_Inr [OF records_panic(2)] Cons.prems(2) by simp
  qed simp_all
qed


lemma resolved_records_Cons:
  "resolved_records b (d # ds) (rs # records) =
     map (resolve_record (net_FormatIP b d)) rs @ resolved_records b ds records"
  by (simp add: resolved_records_def)

lemma Create_containers_dnsRecords:
  "Create_containers b records i cs e ms newIps w = (r, e', ms', n', w') \<Longrightarrow>
   \<exists>ds. length ds \<le> length cs \<and> (r = None \<longrightarrow> length ds = length cs)
      \<and> dnsRecords e' = dnsRecords e @ resolved_records b ds (drop i records)"
proof (induction cs arbitrary: i e ms newIps w)
  case Nil
  then have "dnsRecords e' = dnsRecords e @ resolved_records b [] (drop i records)"
    by (simp add: resolved_records_def)
  then show ?case by auto
next
  case (Cons spec0 rest)
  have stay: "\<exists>ds. length ds \<le> length (spec0 # rest) \<and> (r = None \<longrightarrow> length ds = length (spec0 # rest))
      \<and> dnsRecords e' = dnsRecords e @ resolved_records b ds (drop i records)"
    if "e' = e" "r \<noteq> None"
    using that by (intro exI [of _ "[]"]) (simp add: resolved_records_def)
  from Cons.prems show ?case
  proof (cases rule: Create_containers_Cons_cases)
    case (continue c d n2 w2)
    from Cons.IH [OF continue(4) [symmetric]]
    obtain ds where ds: "length ds \<le> length rest" "r = None \<longrightarrow> length ds = length rest"
      "dnsRecords e' = dnsRecords (append_records e (net_FormatIP b d) (records ! i))
          @ resolved_records b ds (drop (Suc i) records)"
      by blast
    have "drop i records = records ! i # drop (Suc i) records"
      using continue(3) by (simp add: Cons_nth_drop_Suc)
    then have "dnsRecords e' = dnsRecords e @ resolved_records b (d # ds) (drop i records)"
      using ds(3) by (simp add: append_records_eq resolved_records_Cons)
    moreover have "length (d # ds) \<le> length (spec0 # rest)" using ds(1) by simp
    moreover have "r = None \<longrightarrow> length (d # ds) = length (spec0 # rest)" using ds(2) by simp
    ultimately show ?thesis by blast
  next
    case (create_failed err)
    then show ?thesis using stay by simp
  next
    case (connect_ended c out w2)
    then show ?thesis using stay by simp
  next
    case (records_panic c d n2 w2)
    then show ?thesis using stay by simp
  qed
qed




lemma Create_cases:
  assumes "Create b e w = (out, e', w')"
  obtains
    (containers_ended) ms n where
      "Create_containers b (map Docker_Records (Conf_DockerConfs (conf e))) 0
         (map container_spec (Conf_DockerConfs (conf e))) e [] None w = (Some out, e', ms, n, w')"
  | (vms_failed) err ms n w1 ms2 where
      "Create_containers b (map Docker_Records (Conf_DockerConfs (conf e))) 0
         (map container_spec (Conf_DockerConfs (conf e))) e [] None w = (None, e', ms, n, w1)"
      "Create_vms b (Conf_VBoxConfig (conf e')) ms w1 = (Some err, ms2, w')"
      "out = Returns (Some err)"
  | (completed) e1 ms n w1 ms2 where
      "Create_containers b (map Docker_Records (Conf_DockerConfs (conf e))) 0
         (map container_spec (Conf_DockerConfs (conf e))) e [] None w = (None, e1, ms, n, w1)"
      "Create_vms b (Conf_VBoxConfig (conf e1)) ms w1 = (None, ms2, w')"
      "out = Returns None"
      "e' = (if ips e1 = None then e1\<lparr>ips := n\<rparr> else e1)\<lparr>machines := ms2\<rparr>"
  using assms
  by (auto simp: Create_def ContainerOpts_eq split: prod.splits option.splits)

lemma Create_keeps_ips_recorded:
  assumes "Create b e w = (out, e', w')"
    and "ips e = None \<or> slice_len (ips e) = length (Conf_DockerConfs (conf e))"
  shows "conf e' = conf e
       \<and> (ips e' = None \<or> slice_len (ips e') = length (Conf_DockerConfs (conf e')))"
  using assms(1)
proof (cases rule: Create_cases)
  case (containers_ended ms n)
  then show ?thesis using Create_containers_frame [OF containers_ended] assms(2) by simp
next
  case (vms_failed err ms n w1 ms2)
  then show ?thesis using Create_containers_frame [OF vms_failed(1)] assms(2) by simp
next
  case (completed e1 ms n w1 ms2)
  have same: "conf e1 = conf e" "ips e1 = ips e"
    using Create_containers_frame [OF completed(1)] by simp_all
  show ?thesis
  proof (cases "ips e")
    case None
    then have "slice_len n = length (Conf_DockerConfs (conf e))"
      using Create_containers_newIps_nil [OF completed(1)] by (simp add: slice_len_def)
    with None completed(4) same show ?thesis by simp
  next
    case (Some xs)
    with assms(2) completed(4) same show ?thesis by simp
  qed
qed

lemma Create_first_records_ips:
  assumes "Create b e w = (Returns None, e', w')" and "ips e = None"
  shows "slice_len (ips e') = length (Conf_DockerConfs (conf e))
       \<and> (Conf_DockerConfs (conf e) = [] \<or> ips e' \<noteq> None)"
  using assms(1)
proof (cases rule: Create_cases)
  case (completed e1 ms n w1 ms2)
  have same: "ips e1 = None"
    using Create_containers_frame [OF completed(1)] assms(2) by simp
  have "slice_len n = length (Conf_DockerConfs (conf e))
      \<and> (Conf_DockerConfs (conf e) = [] \<or> n \<noteq> None)"
    using Create_containers_newIps_nil [OF completed(1) assms(2)] by (simp add: slice_len_def)
  with completed(4) same show ?thesis by simp
next
  case (containers_ended ms n)
  then show ?thesis using Create_containers_returns [OF containers_ended] by simp
next
  case (vms_failed err ms n w1 ms2)
  then show ?thesis by simp
qed

lemmas demo_defs = demo_backends_def demo_exercise_def demo_conf_def Create_def ContainerOpts_def
  container_spec_def Create_connect_def append_ip_def resolve_record_def slice_len_def Let_def





text \<open>
  Claim C9. When \<^verbatim>\<open>Create\<close> does not return \<^verbatim>\<open>nil\<close> (it returns an error, or panics),
  the machine list and the recorded suffix list are what they were before the call, as
  are the blueprint, the flags and the DNS address; the DNS records have grown by the
  resolved records of the containers that were connected before the failure, in order.
\<close>

theorem Create_error_changes_only_dnsRecords:
  assumes "Create b e w = (out, e', w')" and "out \<noteq> Returns None"
  shows "machines e' = machines e \<and> ips e' = ips e
       \<and> conf e' = conf e \<and> flags e' = flags e \<and> dnsIP e' = dnsIP e
       \<and> (\<exists>ds. length ds \<le> length (Conf_DockerConfs (conf e))
             \<and> dnsRecords e' = dnsRecords e
                 @ resolved_records b ds (map Docker_Records (Conf_DockerConfs (conf e))))"
  using assms(1)
proof (cases rule: Create_cases)
  case (containers_ended ms n)
  from Create_containers_dnsRecords [OF containers_ended]
  obtain ds where "length ds \<le> length (Conf_DockerConfs (conf e))"
    "dnsRecords e' = dnsRecords e
       @ resolved_records b ds (map Docker_Records (Conf_DockerConfs (conf e)))"
    by auto
  then show ?thesis using Create_containers_frame [OF containers_ended] by blast
next
  case (vms_failed err ms n w1 ms2)
  from Create_containers_dnsRecords [OF vms_failed(1)]
  obtain ds where "length ds \<le> length (Conf_DockerConfs (conf e))"
    "dnsRecords e' = dnsRecords e
       @ resolved_records b ds (map Docker_Records (Conf_DockerConfs (conf e)))"
    by auto
  then show ?thesis using Create_containers_frame [OF vms_failed(1)] by blast
next
  case (completed e1 ms n w1 ms2)
  with assms(2) show ?thesis by simp
qed

theorem Create_error_changes_only_dnsRecords_witness:
  "fst (Create failing_backends (demo_exercise\<lparr>machines := [VMInst 9]\<rparr>) [])
     = Returns (Some (ExternalErr ''no such image''))
   \<and> machines (fst (snd (Create failing_backends (demo_exercise\<lparr>machines := [VMInst 9]\<rparr>) [])))
     = [VMInst 9]
   \<and> ips (fst (snd (Create failing_backends (demo_exercise\<lparr>machines := [VMInst 9]\<rparr>) []))) = None
   \<and> length (dnsRecords (fst (snd (Create failing_backends
         (demo_exercise\<lparr>machines := [VMInst 9]\<rparr>) [])))) = 2"
proof -
  let ?e = "demo_exercise\<lparr>machines := [VMInst 9]\<rparr>"
  let ?r = "Create failing_backends ?e []"
  have out: "fst ?r = Returns (Some (ExternalErr ''no such image''))"
    by (simp add: demo_defs failing_backends_def)
  have len: "length (dnsRecords (fst (snd ?r))) = 2"
    by (simp add: demo_defs failing_backends_def)
  have run: "?r = (fst ?r, fst (snd ?r), snd (snd ?r))" by simp
  have "fst ?r \<noteq> Returns None" using out by simp
  from Create_error_changes_only_dnsRecords [OF run this] out len show ?thesis
    by (simp add: demo_exercise_def)
qed

section \<open>The environment of a launch spec\<close>

lemma set_envs_other:
  "k \<notin> Env_EnvVar ` set envs \<Longrightarrow> set_envs m envs k = m k"
  by (induction envs arbitrary: m) auto

lemma set_envs_last:
  "Env_EnvVar env \<notin> Env_EnvVar ` set post \<Longrightarrow>
   set_envs m (pre @ env # post) (Env_EnvVar env) = Some (Env_Value env)"
  by (induction pre arbitrary: m) (simp_all add: set_envs_other)

lemma set_flags_other:
  "k \<notin> Flag_EnvVar ` set fs \<Longrightarrow> set_flags m fs k = m k"
  by (induction fs arbitrary: m) auto

lemma set_flags_last:
  "Flag_EnvVar flag \<notin> Flag_EnvVar ` set post \<Longrightarrow>
   set_flags m (pre @ flag # post) (Flag_EnvVar flag) = Some (Flag_Default flag)"
  by (induction pre arbitrary: m) (simp_all add: set_flags_other)

lemma ContainerOpts_nth:
  "n < length (Conf_DockerConfs ec) \<Longrightarrow>
   fst (ContainerOpts ec) ! n = container_spec (Conf_DockerConfs ec ! n)"
  by (simp add: ContainerOpts_eq)

text \<open>
  Claim C7, amended. In the launch spec of container spec \<open>n\<close>, the environment map sends
  the key of an override to the value of that override when no later override has the
  same key, whatever the flag definitions say; and it sends the key of a flag definition
  to the default of that flag when no later flag definition and no override has the same
  key. Among the overrides with one key, and among the flag definitions with one key,
  the last one wins.
\<close>

theorem ContainerOpts_env_last_wins:
  assumes "n < length (Conf_DockerConfs ec)"
  shows "(Docker_Envs (Conf_DockerConfs ec ! n) = pre @ env # post
            \<and> Env_EnvVar env \<notin> Env_EnvVar ` set post \<longrightarrow>
          CC_EnvVars (fst (ContainerOpts ec) ! n) (Env_EnvVar env) = Some (Env_Value env))
       \<and> (Docker_Flags (Conf_DockerConfs ec ! n) = fpre @ flag # fpost
            \<and> Flag_EnvVar flag \<notin> Flag_EnvVar ` set fpost
            \<and> Flag_EnvVar flag \<notin> Env_EnvVar ` set (Docker_Envs (Conf_DockerConfs ec ! n)) \<longrightarrow>
          CC_EnvVars (fst (ContainerOpts ec) ! n) (Flag_EnvVar flag) = Some (Flag_Default flag))"
proof (intro conjI impI)
  assume "Docker_Envs (Conf_DockerConfs ec ! n) = pre @ env # post
            \<and> Env_EnvVar env \<notin> Env_EnvVar ` set post"
  then show "CC_EnvVars (fst (ContainerOpts ec) ! n) (Env_EnvVar env) = Some (Env_Value env)"
    using assms by (simp add: ContainerOpts_nth container_spec_def set_envs_last)
next
  assume "Docker_Flags (Conf_DockerConfs ec ! n) = fpre @ flag # fpost
            \<and> Flag_EnvVar flag \<notin> Flag_EnvVar ` set fpost
            \<and> Flag_EnvVar flag \<notin> Env_EnvVar ` set (Docker_Envs (Conf_DockerConfs ec ! n))"
  then show "CC_EnvVars (fst (ContainerOpts ec) ! n) (Flag_EnvVar flag) = Some (Flag_Default flag)"
    using assms by (simp add: ContainerOpts_nth container_spec_def set_envs_other set_flags_last)
qed

theorem ContainerOpts_env_last_wins_witness:
  "CC_EnvVars (fst (ContainerOpts dup_blueprint) ! 0) ''MODE'' = Some ''prod''
   \<and> CC_EnvVars (fst (ContainerOpts dup_blueprint) ! 0) ''FLAG'' = Some ''aaa''"
  using ContainerOpts_env_last_wins [of 0 dup_blueprint
      "[\<lparr> Env_EnvVar = ''MODE'', Env_Value = ''dev'' \<rparr>]"
      "\<lparr> Env_EnvVar = ''MODE'', Env_Value = ''prod'' \<rparr>" "[]"
      "[]" "\<lparr> Flag_Name = ''f1'', Flag_EnvVar = ''FLAG'', Flag_Default = ''aaa'', Flag_Points = 5 \<rparr>"
      "[\<lparr> Flag_Name = ''f2'', Flag_EnvVar = ''MODE'', Flag_Default = ''bbb'', Flag_Points = 1 \<rparr>]"]
  by (simp add: dup_blueprint_def)

text \<open>
  Claim C7 as it is written fails when two overrides have the same key: the first
  override of \<open>dup_blueprint\<close> is an override of the spec, and the map does not send its
  key to its value.
\<close>

theorem ContainerOpts_env_duplicate_override_counterexample:
  "Docker_Envs (Conf_DockerConfs dup_blueprint ! 0) ! 0 \<in> set (Docker_Envs (Conf_DockerConfs dup_blueprint ! 0))
   \<and> CC_EnvVars (fst (ContainerOpts dup_blueprint) ! 0)
        (Env_EnvVar (Docker_Envs (Conf_DockerConfs dup_blueprint ! 0) ! 0))
     \<noteq> Some (Env_Value (Docker_Envs (Conf_DockerConfs dup_blueprint ! 0) ! 0))"
  by (simp add: dup_blueprint_def ContainerOpts_def container_spec_def)

section \<open>The hub\<close>

lemma sint_pred_32:
  fixes x :: "32 word"
  assumes "- (2 ^ 31) < sint x"
  shows "sint (x - 1) = sint x - 1"
proof -
  have "sint x < 2 ^ 31" using sint_lt [of x] by simp
  then have "signed_take_bit 31 (sint x - 1) = sint x - 1"
    using assms by (intro signed_take_bit_int_eq_self) simp_all
  then show ?thesis by (simp add: sint_word_ariths)
qed

lemma sint_succ_32:
  fixes x :: "32 word"
  assumes "sint x < 2 ^ 31 - 1"
  shows "sint (x + 1) = sint x + 1"
proof -
  have "- (2 ^ 31) \<le> sint x" using sint_ge [of x] by simp
  then have "signed_take_bit 31 (sint x + 1) = sint x + 1"
    using assms by (intro signed_take_bit_int_eq_self) simp_all
  then show ?thesis by (simp add: sint_word_ariths)
qed

text \<open>
  Claim C1. In a run of \<^verbatim>\<open>addLab\<close> that gets both permits and in which the lab host
  fails to build the lab, \<^verbatim>\<open>addLab\<close> returns the error of the lab host, the creation
  semaphore holds as many permits as before the call (the permit was released), and the
  capacity semaphore holds one less (the permit stays claimed). Nothing else in the hub
  changes, and the lab host was called once.
\<close>

theorem addLab_construction_failure:
  assumes "0 < permits (maximumSema h)"
    and "0 < permits (createSema h)"
    and "permits (createSema h) \<le> sem_cap (createSema h)"
    and "host_NewLab host w (vboxLib h) (hub_conf h) = Inl err"
  shows "addLab host h w =
           (Returns (Some err),
            h\<lparr>maximumSema := (maximumSema h)\<lparr>permits := permits (maximumSema h) - 1\<rparr>\<rparr>,
            w @ [NewLabCall (vboxLib h) (hub_conf h)], [])
       \<and> available (createSema (fst (snd (addLab host h w)))) = available (createSema h)
       \<and> available (maximumSema (fst (snd (addLab host h w)))) = available (maximumSema h) - 1"
proof -
  have "addLab host h w =
           (Returns (Some err),
            h\<lparr>maximumSema := (maximumSema h)\<lparr>permits := permits (maximumSema h) - 1\<rparr>\<rparr>,
            w @ [NewLabCall (vboxLib h) (hub_conf h)], [])"
    using assms
    by (simp add: addLab_def addLab_body_def addLab_deferred_def claim_def release_def available_def)
  then show ?thesis using assms(1) by (simp add: available_def)
qed

text \<open>
  Claim C4. When the size of the warm buffer exceeds the hard cap, \<^verbatim>\<open>NewHub\<close> returns
  \<^verbatim>\<open>AvailableSizeErr\<close> and no hub; the call log is what it was, so the lab host was
  not called, and no goroutine was started.
\<close>

theorem NewHub_rejects_oversized_buffer:
  "cap < avail \<Longrightarrow> NewHub host cf vb avail cap w = (None, Returns (Some AvailableSizeErr), w, [])"
  by (simp add: NewHub_def)



text \<open>
  Claim C6. A \<^verbatim>\<open>Get\<close> that returns no error has subtracted 1 from the counter that
  \<^verbatim>\<open>Available()\<close> reads (as \<^verbatim>\<open>atomic.AddInt32\<close> does; read as a signed number it is
  one less unless the counter was at the least \<^verbatim>\<open>int32\<close>), and the list of dispensed
  labs is the old list followed by the returned lab. When the buffer held a lab, the
  returned lab is the one at its head.
\<close>

theorem Get_dispenses_one_lab:
  assumes "Get h = ((lab, None), h', gos)"
  shows "Available h' = Available h - 1
       \<and> labs h' = labs h @ [lab]
       \<and> (- (2 ^ 31) < sint (Available h) \<longrightarrow> sint (Available h') = sint (Available h) - 1)
       \<and> (items (buffer h) \<noteq> [] \<longrightarrow> items (buffer h) = lab # items (buffer h'))"
proof -
  have *: "Available h' = Available h - 1 \<and> labs h' = labs h @ [lab]
       \<and> (items (buffer h) \<noteq> [] \<longrightarrow> items (buffer h) = lab # items (buffer h'))"
    using assms
    by (auto simp: Get_def Get_received_def Available_def Let_def split: list.splits if_splits)
  then have "- (2 ^ 31) < sint (Available h) \<longrightarrow> sint (Available h') = sint (Available h) - 1"
    using sint_pred_32 [of "Available h"] by simp
  with * show ?thesis by simp
qed

lemma Get_keeps_consistent:
  assumes "hub_consistent h"
  shows "hub_consistent (fst (snd (Get h)))"
proof (cases "items (buffer h)")
  case Nil
  with assms show ?thesis by (simp add: Get_def hub_consistent_def)
next
  case (Cons lab rest)
  have "sint (numbLabs h) = int (length (lab # rest))"
    using assms Cons by (simp add: hub_consistent_def)
  then have "sint (numbLabs h - 1) = int (length rest)"
    using sint_pred_32 [of "numbLabs h"] by simp
  with assms Cons show ?thesis
    by (simp add: Get_def Get_received_def hub_consistent_def Let_def)
qed

lemma addLab_body_keeps_consistent:
  assumes "hub_consistent h"
  shows "hub_consistent (fst (snd (addLab_body host h w)))"
proof -
  have "sint (numbLabs h + 1) = int (length (items (buffer h))) + 1"
    if "length (items (buffer h)) < chan_cap (buffer h)"
  proof -
    have "sint (numbLabs h) < 2 ^ 31 - 1" using that assms by (simp add: hub_consistent_def)
    then show ?thesis using sint_succ_32 [of "numbLabs h"] assms by (simp add: hub_consistent_def)
  qed
  with assms show ?thesis
    by (auto simp: addLab_body_def hub_consistent_def Let_def
          split: sum.splits Lab.splits option.splits)
qed

lemma addLab_keeps_consistent:
  assumes "hub_consistent h"
  shows "hub_consistent (fst (snd (addLab host h w)))"
proof -
  have c: "hub_consistent (h\<lparr>maximumSema := ms, createSema := cs\<rparr>)" for ms cs
    using assms by (simp add: hub_consistent_def)
  have d: "hub_consistent (fst (snd (addLab_deferred r)))" if "hub_consistent (fst (snd r))" for r
    using that by (cases r) (auto simp: addLab_deferred_def hub_consistent_def split: option.splits)
  have m: "hub_consistent (h\<lparr>maximumSema := ms\<rparr>)" for ms
    using assms by (simp add: hub_consistent_def)
  show ?thesis
    using assms m d [OF addLab_body_keeps_consistent [OF c]]
    by (simp add: addLab_def split: option.splits)
qed

lemma init_loop_keeps_consistent:
  "hub_consistent h \<Longrightarrow> hub_consistent (fst (snd (init_loop host n h w gos)))"
proof (induction n arbitrary: h w gos)
  case 0
  then show ?case by simp
next
  case (Suc n)
  obtain out h' w' gos' where a: "addLab host h w = (out, h', w', gos')"
    by (cases "addLab host h w") auto
  then have "hub_consistent h'" using addLab_keeps_consistent [OF Suc.prems, of host w] by simp
  then show ?case using a Suc.IH [of h' w' "gos @ gos'"] by (cases out) simp_all
qed

lemma NewHub_consistent:
  assumes "NewHub host cf vb avail cap w = (Some h, out, w', gos)" and "avail < 2 ^ 31"
  shows "hub_consistent h"
proof -
  have "hub_consistent \<lparr> vboxLib = vb, hub_conf = cf, createSema = cs, maximumSema = ms,
          labs = [], buffer = \<lparr> items = [], chan_cap = nat avail, closed = False \<rparr>,
          numbLabs = 0 \<rparr>" for cs ms
    using assms(2) by (simp add: hub_consistent_def)
  from init_loop_keeps_consistent [OF this, of host "nat avail" _ _ w "[]"] assms(1)
  show ?thesis
    by (auto simp: NewHub_def split: if_splits option.splits prod.splits outcome.splits)
       (metis fst_conv snd_conv)
qed

lemma NewHub_demo:
  "NewHub demo_host ''blueprint'' ''vbox'' 2 5 [] =
     (Some demo_hub, Returns None,
      [NewLabCall ''vbox'' ''blueprint'', LabStartCall (LabRef 0),
       NewLabCall ''vbox'' ''blueprint'', LabStartCall (LabRef 2)], [])"
  by (simp add: NewHub_def newSemaphore_def demo_host_def demo_hub_def addLab_def addLab_body_def
        addLab_deferred_def claim_def release_def available_def numeral_2_eq_2)

theorem addLab_construction_failure_witness:
  "addLab failing_host demo_hub [] =
     (Returns (Some (ExternalErr ''no such image'')),
      demo_hub\<lparr>maximumSema := \<lparr> permits = 2, sem_cap = 5 \<rparr>\<rparr>,
      [NewLabCall ''vbox'' ''blueprint''], [])
   \<and> available (createSema (fst (snd (addLab failing_host demo_hub [])))) = 3
   \<and> available (maximumSema (fst (snd (addLab failing_host demo_hub [])))) = 2"
  using addLab_construction_failure [of demo_hub failing_host "[]" "ExternalErr ''no such image''"]
  by (simp add: demo_hub_def failing_host_def demo_host_def available_def)

theorem NewHub_rejects_oversized_buffer_witness:
  "NewHub demo_host ''blueprint'' ''vbox'' 6 5 [] = (None, Returns (Some AvailableSizeErr), [], [])"
  using NewHub_rejects_oversized_buffer [of 5 6 demo_host "''blueprint''" "''vbox''" "[]"]
  by simp


theorem Get_dispenses_one_lab_witness:
  "Get demo_hub =
     ((LabRef 0, None),
      demo_hub\<lparr>buffer := \<lparr> items = [LabRef 2], chan_cap = 2, closed = False \<rparr>,
        numbLabs := 1, labs := [LabRef 0]\<rparr>,
      [AddLabTask])
   \<and> sint (Available demo_hub) = 2
   \<and> sint (Available (demo_hub\<lparr>buffer := \<lparr> items = [LabRef 2], chan_cap = 2, closed = False \<rparr>,
        numbLabs := 1, labs := [LabRef 0]\<rparr>)) = 2 - 1"
proof -
  let ?h' = "demo_hub\<lparr>buffer := \<lparr> items = [LabRef 2], chan_cap = 2, closed = False \<rparr>,
        numbLabs := 1, labs := [LabRef 0]\<rparr>"
  have g: "Get demo_hub = ((LabRef 0, None), ?h', [AddLabTask])"
    by (simp add: Get_def Get_received_def demo_hub_def BUFFERSIZE_def Let_def)
  have a: "sint (Available demo_hub) = 2" by (simp add: Available_def demo_hub_def)
  have "- (2 ^ 31) < sint (Available demo_hub) \<longrightarrow>
      sint (Available ?h') = sint (Available demo_hub) - 1"
    using Get_dispenses_one_lab [OF g] by blast
  with a have "sint (Available ?h') = 2 - 1" by simp
  with g a show ?thesis by blast
qed

end
